theory Spec2Isabelle
  imports Main "HOL-Library.AList"
begin

section \<open>Python values of \<^verbatim>\<open>dispatches/workflow/workflow.py\<close>\<close>

text \<open>
  Exceptions are values: every \<^verbatim>\<open>raise\<close> of the module, and every failure of an attribute
  or method lookup on the path of a claim, is a result \<open>Inl e\<close>. A function that mutates an
  object returns the object after the call next to its result, also when it raises.
\<close>

datatype error =
    ValueError string
  | KeyError string
  | TypeError string
  | AttributeError string
  | UnicodeDecodeError

definition quoted :: "string \<Rightarrow> string" where
  "quoted s = CHR 0x27 # s @ [CHR 0x27]"

subsection \<open>\<^verbatim>\<open>pathlib.Path\<close>, as far as the module uses it\<close>

text \<open>
  A path is its anchor (empty for a relative path, \<^verbatim>\<open>/\<close> for an absolute one) and the list of
  its components. \<open>path_name\<close> is \<^verbatim>\<open>Path.name\<close>, \<open>path_parent\<close> is \<^verbatim>\<open>Path.parent\<close>,
  \<open>joinpath\<close> is the operator \<^verbatim>\<open>/\<close>, \<open>path_str\<close> is \<^verbatim>\<open>str(path)\<close>.
\<close>

datatype path = Path (anchor: string) (segs: "string list")

definition path_name :: "path \<Rightarrow> string" where
  "path_name p = (if segs p = [] then [] else last (segs p))"

definition path_parent :: "path \<Rightarrow> path" where
  "path_parent p = Path (anchor p) (butlast (segs p))"

definition joinpath :: "path \<Rightarrow> path \<Rightarrow> path" where
  "joinpath p q = (if anchor q \<noteq> [] then q else Path (anchor p) (segs p @ segs q))"

fun split_sep :: "string \<Rightarrow> string list" where
  "split_sep [] = [[]]"
| "split_sep (c # cs) =
     (if c = CHR ''/'' then [] # split_sep cs
      else (case split_sep cs of [] \<Rightarrow> [[c]] | w # ws \<Rightarrow> (c # w) # ws))"

definition parse_path :: "string \<Rightarrow> path" where
  "parse_path s =
     Path (if take 2 s = ''//'' \<and> take 3 s \<noteq> ''///'' then ''//''
           else if take 1 s = ''/'' then ''/'' else [])
          (filter (\<lambda>w. w \<noteq> [] \<and> w \<noteq> ''.'') (split_sep s))"

fun join_sep :: "string list \<Rightarrow> string" where
  "join_sep [] = []"
| "join_sep [w] = w"
| "join_sep (w # ws) = w @ ''/'' @ join_sep ws"

definition path_str :: "path \<Rightarrow> string" where
  "path_str p = (if anchor p = [] \<and> segs p = [] then ''.'' else anchor p @ join_sep (segs p))"

text \<open>
  What the module asks of the file system and of the package \<^verbatim>\<open>rts_gmlc\<close>, taken as
  parameters: \<^verbatim>\<open>Path.resolve\<close>, \<^verbatim>\<open>rts_gmlc.download\<close> and \<^verbatim>\<open>os.listdir\<close>.
\<close>

record env =
  resolve :: "path \<Rightarrow> path"
  download :: "path option \<Rightarrow> path"
  listdir :: "path \<Rightarrow> string list"

subsection \<open>\<^verbatim>\<open>resource.Resource\<close> of the data management framework\<close>

text \<open>
  Modelled from the spec: the class \<^verbatim>\<open>Resource\<close> of \<^verbatim>\<open>idaes.dmf.resource\<close> is not part
  of the repository. A resource has an identifier, a name, a description, and data files (the
  path and the description of each) under their directory.
\<close>

record resource =
  rid :: nat
  rname :: string
  rdesc :: string
  datafiles :: "(string \<times> string) list"
  datafiles_dir :: string

section \<open>Dataset\<close>

text \<open>
  The values the module stores in \<^verbatim>\<open>Dataset._meta\<close>: a path, a string, a list of file names,
  a resource; \<open>NoneV\<close> is Python's \<^verbatim>\<open>None\<close>. The dictionary keeps insertion order, and
  \<^verbatim>\<open>d[k] = v\<close> is \<open>AList.update k v d\<close>.
\<close>

datatype meta_value =
    NoneV
  | PathV path
  | StrV string
  | ListV "string list"
  | ResV resource

record dataset =
  name :: string
  meta :: "(string \<times> meta_value) list"

definition Dataset :: "string \<Rightarrow> dataset" where
  "Dataset n = \<lparr>name = n, meta = []\<rparr>"

definition add_meta :: "string \<Rightarrow> meta_value \<Rightarrow> dataset \<Rightarrow> dataset" where
  "add_meta key v ds = ds\<lparr>meta := AList.update key v (meta ds)\<rparr>"

definition resource_id :: "dataset \<Rightarrow> error + nat option" where
  "resource_id ds =
     (case map_of (meta ds) ''resource'' of
        None \<Rightarrow> Inr None
      | Some (ResV r) \<Rightarrow> Inr (Some (rid r))
      | Some _ \<Rightarrow> Inl (AttributeError ''id''))"

definition resource_getter :: "dataset \<Rightarrow> meta_value" where
  "resource_getter ds = (case map_of (meta ds) ''resource'' of None \<Rightarrow> NoneV | Some v \<Rightarrow> v)"

definition resource_setter :: "meta_value \<Rightarrow> dataset \<Rightarrow> (error + unit) \<times> dataset" where
  "resource_setter v ds =
     (if map_of (meta ds) ''resource'' \<noteq> None
      then (Inl (ValueError ''Cannot set 'resource' on a dataset more than once''), ds)
      else (Inr (), ds\<lparr>meta := AList.update ''resource'' v (meta ds)\<rparr>))"

definition from_resource :: "resource \<Rightarrow> (error + unit) \<times> dataset" where
  "from_resource r =
     resource_setter (ResV r)
       (add_meta ''files'' (ListV (map fst (datafiles r)))
         (add_meta ''directory'' (StrV (datafiles_dir r)) (Dataset (rname r))))"

section \<open>DatasetFactory\<close>

text \<open>
  \<^verbatim>\<open>_get_factory_function\<close> returns one of three closures; \<open>create\<close> calls the closure
  with the keyword arguments \<^verbatim>\<open>target_path\<close> and \<^verbatim>\<open>path\<close> (absent: \<open>None\<close>).
\<close>

datatype factory_function = DownloadFn string | NullFn | ScriptFn

definition RTS_GMLC :: string where
  "RTS_GMLC = ''rts-gmlc''"

definition get_factory_function :: "string \<Rightarrow> error + factory_function" where
  "get_factory_function type_name =
     (if type_name = RTS_GMLC then Inr (DownloadFn type_name)
      else if type_name = ''null'' then Inr NullFn
      else if type_name = ''script'' then Inr ScriptFn
      else Inl (KeyError type_name))"

definition DatasetFactory :: "string \<Rightarrow> error + factory_function" where
  "DatasetFactory type_name =
     (case get_factory_function type_name of
        Inl _ \<Rightarrow> Inl (KeyError (''Cannot create dataset of type '' @ quoted type_name))
      | Inr f \<Rightarrow> Inr f)"

definition download_fn :: "env \<Rightarrow> string \<Rightarrow> path option \<Rightarrow> dataset" where
  "download_fn e type_name target_path =
     (let rts_gmlc_dir = download e target_path
      in add_meta ''files'' (ListV (listdir e rts_gmlc_dir))
           (add_meta ''directory'' (PathV rts_gmlc_dir) (Dataset type_name)))"

definition null_fn :: dataset where
  "null_fn = Dataset ''null''"

definition script_fn :: "env \<Rightarrow> path \<Rightarrow> dataset" where
  "script_fn e p =
     add_meta ''files'' (ListV [path_name p])
       (add_meta ''directory'' (PathV (resolve e (path_parent p)))
         (Dataset (''script:'' @ path_name p)))"

definition create :: "env \<Rightarrow> factory_function \<Rightarrow> path option \<Rightarrow> path option \<Rightarrow> error + dataset" where
  "create e f target_path script_path =
     (case f of
        DownloadFn type_name \<Rightarrow> Inr (download_fn e type_name target_path)
      | NullFn \<Rightarrow> Inr null_fn
      | ScriptFn \<Rightarrow>
          (case script_path of
             None \<Rightarrow> Inl (TypeError (''fn() missing 1 required positional argument: '' @ quoted ''path''))
           | Some p \<Rightarrow> Inr (script_fn e p)))"

section \<open>The provenance store\<close>

text \<open>
  The class \<^verbatim>\<open>DMF\<close> and the module \<^verbatim>\<open>resource\<close> of \<^verbatim>\<open>idaes.dmf\<close> are imported by the
  module and are not part of the repository. Their operations are modelled from what the
  specification says of the store.
\<close>

text \<open>
  Modelled from the spec: the predicates of the relations the workflow creates,
  \<^verbatim>\<open>resource.Predicates.uses\<close> and \<^verbatim>\<open>resource.Predicates.derived\<close>.
\<close>

datatype predicate = uses | derived

text \<open>
  Modelled from the spec: a relation is a directed, typed edge between two resources; here
  the identifier of its subject, its predicate and the identifier of its object.
\<close>

type_synonym relation = "nat \<times> predicate \<times> nat"

text \<open>
  Modelled from the spec: the state of the store \<^verbatim>\<open>DMF\<close>. It holds the workspace path, the
  resources added so far, the relations committed so far, and the relations created since
  the last commit.
\<close>

record DMF =
  workspace_path :: path
  resources :: "resource list"
  relations :: "relation list"
  pending :: "relation list"

text \<open>
  Modelled from the spec: \<^verbatim>\<open>DMF.find(name=n)\<close>, the resources of the store named \<open>n\<close>.
\<close>

definition find_dmf :: "DMF \<Rightarrow> string \<Rightarrow> resource list" where
  "find_dmf st n = filter (\<lambda>r. rname r = n) (resources st)"

text \<open>
  Modelled from the spec: \<^verbatim>\<open>DMF.find_related(r, outgoing=True, maxdepth=1)\<close>, the committed
  relations whose subject is \<open>r\<close>, each with its depth and with the identifier of its target
  (the metadata field \<^verbatim>\<open>Resource.ID_FIELD\<close>).
\<close>

definition find_related :: "DMF \<Rightarrow> resource \<Rightarrow> (nat \<times> relation \<times> nat) list" where
  "find_related st r =
     map (\<lambda>rel. (1, rel, snd (snd rel))) (filter (\<lambda>rel. fst rel = rid r) (relations st))"

text \<open>
  Modelled from the spec: \<^verbatim>\<open>DMF.add(r)\<close> adds a resource, which \<open>find_dmf\<close> sees at once.
\<close>

definition add :: "resource \<Rightarrow> DMF \<Rightarrow> DMF" where
  "add r st = st\<lparr>resources := resources st @ [r]\<rparr>"

text \<open>
  Modelled from the spec: \<^verbatim>\<open>resource.create_relation(subj, p, obj)\<close> creates a relation,
  which is not committed before the next \<open>update\<close>.
\<close>

definition create_relation :: "resource \<Rightarrow> predicate \<Rightarrow> resource \<Rightarrow> DMF \<Rightarrow> DMF" where
  "create_relation subj p obj st = st\<lparr>pending := pending st @ [(rid subj, p, rid obj)]\<rparr>"

text \<open>
  Modelled from the spec: \<^verbatim>\<open>DMF.update()\<close> commits the relations created since the last
  commit.
\<close>

definition update :: "DMF \<Rightarrow> DMF" where
  "update st = st\<lparr>relations := relations st @ pending st, pending := []\<rparr>"

text \<open>
  Modelled from the spec: every identifier the store mentions, in a resource or in a
  relation, committed or not.
\<close>

definition known_ids :: "DMF \<Rightarrow> nat list" where
  "known_ids st =
     map rid (resources st) @ concat (map (\<lambda>rel. [fst rel, snd (snd rel)]) (relations st @ pending st))"

text \<open>
  Modelled from the spec: a new \<^verbatim>\<open>Resource\<close> has a unique identifier. Here identifiers
  are numbers, and the new one is the successor of the largest identifier the store mentions
  at the moment the resource is made.
\<close>

definition new_id :: "DMF \<Rightarrow> nat" where
  "new_id st = Suc (fold max (known_ids st) 0)"

text \<open>
  Modelled from the spec: the constructor \<^verbatim>\<open>resource.Resource\<close>, with the description, the
  data files and their directory of the new resource; the name is empty until it is set.
\<close>

definition Resource :: "DMF \<Rightarrow> string \<Rightarrow> (string \<times> string) list \<Rightarrow> string \<Rightarrow> resource" where
  "Resource st d files dir =
     \<lparr>rid = new_id st, rname = [], rdesc = d, datafiles = files, datafiles_dir = dir\<rparr>"

text \<open>
  Modelled from the spec: \<^verbatim>\<open>Resource.set_field("name", n)\<close>.
\<close>

definition set_name :: "string \<Rightarrow> resource \<Rightarrow> resource" where
  "set_name n r = r\<lparr>rname := n\<rparr>"

section \<open>OutputCollector\<close>

text \<open>
  The delimiter argument is \<^verbatim>\<open>None\<close>, a string, a compiled pattern (its \<^verbatim>\<open>search\<close>, as a
  predicate on the text) or another object. \<^verbatim>\<open>re.compile\<close> and the decoding of a line of
  bytes as UTF-8 are parameters; the decoding is \<open>None\<close> where Python raises
  \<^verbatim>\<open>UnicodeDecodeError\<close>. The attribute \<^verbatim>\<open>_delim\<close> of a collector is \<open>None\<close> when
  \<^verbatim>\<open>__init__\<close> has not assigned it. A destination is \<^verbatim>\<open>sys.stdout\<close>,
  \<^verbatim>\<open>sys.stderr\<close> or the file that \<^verbatim>\<open>open(arg, "w")\<close> returns; that the file can be
  opened and written is taken for granted. The message of the \<^verbatim>\<open>TypeError\<close> is shortened:
  the source also prints the type and the value of the argument.
\<close>

datatype phase_delim =
    DelimNone
  | DelimStr string
  | DelimPattern "string \<Rightarrow> bool"
  | DelimOther

datatype stream_arg = ArgTrue | ArgFalse | ArgPath string

datatype destination = sys_stdout | sys_stderr | open_file string

datatype progress = ProgressFalse | ProgressTo destination

datatype stream_method = Redirect destination progress | Vanish

record collector =
  delim :: "(string \<Rightarrow> bool) option"
  methods :: "(string \<times> stream_method) list"

definition method_for :: "string \<Rightarrow> stream_arg \<Rightarrow> stream_method" where
  "method_for nm arg =
     (case arg of
        ArgTrue \<Rightarrow> Redirect (if nm = ''err'' then sys_stderr else sys_stdout) ProgressFalse
      | ArgFalse \<Rightarrow> Vanish
      | ArgPath f \<Rightarrow> Redirect (open_file f) (ProgressTo sys_stdout))"

definition OutputCollector :: "(string \<Rightarrow> error + (string \<Rightarrow> bool)) \<Rightarrow> phase_delim
    \<Rightarrow> stream_arg \<Rightarrow> stream_arg \<Rightarrow> error + collector" where
  "OutputCollector re_compile pd stderr_arg stdout_arg =
     (case (case pd of
              DelimNone \<Rightarrow> Inr None
            | DelimStr s \<Rightarrow>
                (if s = [] then Inr None
                 else (case re_compile s of Inl e \<Rightarrow> Inl e | Inr pat \<Rightarrow> Inr (Some pat)))
            | DelimPattern pat \<Rightarrow> Inr (Some pat)
            | DelimOther \<Rightarrow>
                Inl (TypeError ''Argument for 'phase_delim' should be a string or a regular expression'')) of
        Inl e \<Rightarrow> Inl e
      | Inr d \<Rightarrow>
          Inr \<lparr>delim = d,
               methods = [(''err'', method_for ''err'' stderr_arg), (''out'', method_for ''out'' stdout_arg)]\<rparr>)"

text \<open>
  A stream is the list of the lines the process writes to it, each a string of bytes. A
  stream worker returns its result, the writes, flushes and the closing of the stream it has
  done, in order, and the lines it has left unread.
\<close>

datatype action = Write destination string | Flush destination | Close

type_synonym worker_result = "(error + unit) \<times> action list \<times> string list"

definition after :: "action list \<Rightarrow> worker_result \<Rightarrow> worker_result" where
  "after acts r = (case r of (res, later, unread) \<Rightarrow> (res, acts @ later, unread))"

fun redirect :: "(string \<Rightarrow> string option) \<Rightarrow> collector \<Rightarrow> string list \<Rightarrow> destination
    \<Rightarrow> progress \<Rightarrow> worker_result" where
  "redirect decode c [] dest prog = (Inr (), [Close], [])"
| "redirect decode c (line # stream) dest prog =
     (case decode line of
        None \<Rightarrow> (Inl UnicodeDecodeError, [], stream)
      | Some s \<Rightarrow>
          (case delim c of
             None \<Rightarrow> (Inl (AttributeError ''_delim''), [Write dest s], stream)
           | Some search \<Rightarrow>
               (if search s then
                  (case prog of
                     ProgressFalse \<Rightarrow> (Inl (AttributeError ''write''), [Write dest s], stream)
                   | ProgressTo p \<Rightarrow>
                       after [Write dest s, Write p ''.'', Flush p] (redirect decode c stream dest prog))
                else after [Write dest s] (redirect decode c stream dest prog))))"

definition vanish :: "string list \<Rightarrow> worker_result" where
  "vanish stream = (Inr (), [Close], [])"

text \<open>
  \<^verbatim>\<open>collect\<close> starts one thread for each stream, on the method \<^verbatim>\<open>__init__\<close> has stored
  under the stream's name. \<open>io_thread\<close> is what that thread runs.
\<close>

definition io_thread :: "(string \<Rightarrow> string option) \<Rightarrow> collector \<Rightarrow> string \<Rightarrow> string list
    \<Rightarrow> error + worker_result" where
  "io_thread decode c nm stream =
     (case map_of (methods c) nm of
        None \<Rightarrow> Inl (KeyError nm)
      | Some (Redirect dest prog) \<Rightarrow> Inr (redirect decode c stream dest prog)
      | Some Vanish \<Rightarrow> Inr (vanish stream))"

section \<open>ManagedWorkflow\<close>

text \<open>
  A processing step is a callable with its \<^verbatim>\<open>__module__\<close> and \<^verbatim>\<open>__name__\<close>. It is called
  with the inputs (when they are not \<^verbatim>\<open>None\<close>) before the other arguments \<open>'a\<close>, and
  returns \<^verbatim>\<open>None\<close> or a dictionary from an output key to a directory and its files.
  The inputs of \<^verbatim>\<open>run\<close> are \<^verbatim>\<open>None\<close>, one dataset (an object without \<^verbatim>\<open>__iter__\<close>)
  or a list of datasets. The field \<open>calls\<close> of the workflow is not a field of the source:
  it records every call of a step, with the step's name and the inputs passed.
\<close>

type_synonym outputs = "(string \<times> string \<times> string list) list option"

datatype 'a callable =
  Callable (module: string) (fname: string) (call: "dataset list option \<Rightarrow> 'a \<Rightarrow> outputs")

datatype inputs = NoInputs | Single dataset | Many "dataset list"

record managed_workflow =
  wf_name :: string
  workspace_name :: string
  dmf :: DMF
  calls :: "(string \<times> dataset list option) list"

definition download_path :: "managed_workflow \<Rightarrow> path" where
  "download_path w = joinpath (workspace_path (dmf w)) (parse_path ''downloads'')"

definition step_name_of :: "'a callable \<Rightarrow> string" where
  "step_name_of m = module m @ ''.'' @ fname m"

definition normalize_inputs :: "inputs \<Rightarrow> dataset list option" where
  "normalize_inputs i = (case i of NoInputs \<Rightarrow> None | Single d \<Rightarrow> Some [d] | Many ds \<Rightarrow> Some ds)"

fun resource_ids :: "dataset list \<Rightarrow> error + nat option set" where
  "resource_ids [] = Inr {}"
| "resource_ids (d # ds) =
     (case resource_id d of
        Inl e \<Rightarrow> Inl e
      | Inr i \<Rightarrow> (case resource_ids ds of Inl e \<Rightarrow> Inl e | Inr s \<Rightarrow> Inr (insert i s)))"

definition input_ids_of :: "dataset list option \<Rightarrow> error + nat option set option" where
  "input_ids_of ins =
     (case ins of
        None \<Rightarrow> Inr None
      | Some ds \<Rightarrow> (case resource_ids ds of Inl e \<Rightarrow> Inl e | Inr s \<Rightarrow> Inr (Some s)))"

definition proc_step_input_ids :: "DMF \<Rightarrow> resource \<Rightarrow> nat set" where
  "proc_step_input_ids st proc_step =
     set (map (\<lambda>(d, rel, meta_id). meta_id)
            (filter (\<lambda>(d, rel, meta_id). fst (snd rel) = uses) (find_related st proc_step)))"

definition same_inputs :: "nat option set option \<Rightarrow> nat set \<Rightarrow> bool" where
  "same_inputs input_ids ps_ids =
     ((input_ids = None \<and> card ps_ids = 0) \<or> (input_ids \<noteq> None \<and> Some ` ps_ids = the input_ids))"

definition existing :: "DMF \<Rightarrow> string \<Rightarrow> nat option set option \<Rightarrow> bool" where
  "existing st step_name input_ids =
     list_ex (\<lambda>proc_step. same_inputs input_ids (proc_step_input_ids st proc_step)) (find_dmf st step_name)"

fun add_input_relations :: "resource \<Rightarrow> dataset list \<Rightarrow> DMF \<Rightarrow> (error + unit) \<times> DMF" where
  "add_input_relations step [] st = (Inr (), st)"
| "add_input_relations step (d # ds) st =
     (case resource_getter d of
        ResV r \<Rightarrow> add_input_relations step ds (create_relation step uses r st)
      | _ \<Rightarrow> (Inl (AttributeError ''create_relation''), st))"

fun add_outputs :: "string \<Rightarrow> resource \<Rightarrow> (string \<times> string \<times> string list) list \<Rightarrow> DMF \<Rightarrow> DMF" where
  "add_outputs step_name step [] st = st"
| "add_outputs step_name step ((key, dir_path, files) # rest) st =
     (let datafile_list = map (\<lambda>filename. (filename, RTS_GMLC @ '' file '' @ filename)) files;
          r = set_name key
                (Resource st (''Output files for processing step '' @ step_name) datafile_list dir_path)
      in add_outputs step_name step rest (create_relation r derived step (add r st)))"

definition run :: "'a callable \<Rightarrow> inputs \<Rightarrow> bool \<Rightarrow> 'a \<Rightarrow> managed_workflow
    \<Rightarrow> (error + outputs) \<times> managed_workflow" where
  "run m inputs0 skip_check args w =
     (let step_name = step_name_of m;
          ins = normalize_inputs inputs0
      in case (if skip_check then Inr False
               else (case input_ids_of ins of
                       Inl e \<Rightarrow> Inl e
                     | Inr input_ids \<Rightarrow> Inr (existing (dmf w) step_name input_ids))) of
           Inl e \<Rightarrow> (Inl e, w)
         | Inr True \<Rightarrow> (Inr None, w)
         | Inr False \<Rightarrow>
             (let outs = call m ins args;
                  w1 = w\<lparr>calls := calls w @ [(step_name, ins)]\<rparr>;
                  this_step = set_name step_name
                                (Resource (dmf w1) (''Processing step '' @ step_name) [] []);
                  st1 = add this_step (dmf w1)
              in case (case ins of
                         None \<Rightarrow> (Inr (), st1)
                       | Some ds \<Rightarrow> add_input_relations this_step ds st1) of
                   (Inl e, st2) \<Rightarrow> (Inl e, w1\<lparr>dmf := st2\<rparr>)
                 | (Inr u, st2) \<Rightarrow>
                     (let st3 = (case outs of
                                   None \<Rightarrow> st2
                                 | Some os \<Rightarrow> add_outputs step_name this_step os st2)
                      in (Inr None, w1\<lparr>dmf := update st3\<rparr>))))"

function str_nat :: "nat \<Rightarrow> string" where
  "str_nat n =
     (if n < 10 then [char_of (48 + n)] else str_nat (n div 10) @ [char_of (48 + n mod 10)])"
  by pat_completeness auto
termination
  by (relation "measure id") auto

definition add_to_dmf :: "env \<Rightarrow> dataset \<Rightarrow> DMF \<Rightarrow> (error + unit) \<times> dataset \<times> DMF" where
  "add_to_dmf e ds st =
     (case (case map_of (meta ds) ''files'' of
              None \<Rightarrow> Inr []
            | Some (ListV fs) \<Rightarrow> Inr (map (\<lambda>filename. (filename, RTS_GMLC @ '' file '' @ filename)) fs)
            | Some (StrV s) \<Rightarrow> Inr (map (\<lambda>c. ([c], RTS_GMLC @ '' file '' @ [c])) s)
            | Some _ \<Rightarrow> Inl (TypeError ''object is not iterable'')) of
        Inl err \<Rightarrow> (Inl err, ds, st)
      | Inr datafile_list \<Rightarrow>
          (case (case map_of (meta ds) ''directory'' of
                   None \<Rightarrow> Inr []
                 | Some (PathV p) \<Rightarrow> Inr (path_str (resolve e p))
                 | Some (StrV s) \<Rightarrow> Inr (path_str (resolve e (parse_path s)))
                 | Some _ \<Rightarrow> Inl (TypeError ''expected str, bytes or os.PathLike object'')) of
             Inl err \<Rightarrow> (Inl err, ds, st)
           | Inr dir \<Rightarrow>
               (let r = set_name (name ds) (Resource st [] datafile_list dir);
                    st1 = add r st
                in case resource_setter (ResV r) ds of (res, ds1) \<Rightarrow> (res, ds1, st1))))"

definition run_script :: "env \<Rightarrow> 'a callable \<Rightarrow> string \<Rightarrow> 'a \<Rightarrow> managed_workflow
    \<Rightarrow> (error + outputs) \<times> managed_workflow" where
  "run_script e runner filename collector w =
     (let p = joinpath (download_path w) (parse_path filename)
      in case DatasetFactory ''script'' of
           Inl err \<Rightarrow> (Inl err, w)
         | Inr dsf \<Rightarrow>
             (case create e dsf None (Some p) of
                Inl err \<Rightarrow> (Inl err, w)
              | Inr ds \<Rightarrow>
                  (let found = find_dmf (dmf w) (name ds)
                   in if length found = 0 then
                        (case add_to_dmf e ds (dmf w) of
                           (Inl err, ds1, st1) \<Rightarrow> (Inl err, w\<lparr>dmf := st1\<rparr>)
                         | (Inr u, ds1, st1) \<Rightarrow> run runner (Many [ds1]) True collector (w\<lparr>dmf := st1\<rparr>))
                      else if length found = 1 then
                        (case resource_setter (ResV (found ! 0)) ds of
                           (Inl err, ds1) \<Rightarrow> (Inl err, w)
                         | (Inr u, ds1) \<Rightarrow> run runner (Many [ds1]) False collector w)
                      else
                        (Inl (ValueError (''Got '' @ str_nat (length found)
                               @ '' resources for script configuration, expected at most one: ''
                               @ path_str p)), w))))"

section \<open>Concrete values of the examples\<close>

text \<open>
  A workflow on an empty store, a resource, a dataset backed by it, and a processing step
  \<^verbatim>\<open>mod.step\<close> that returns one output.
\<close>

abbreviation w0 :: managed_workflow where
  "w0 \<equiv> \<lparr>wf_name = ''wf'', workspace_name = ''ws'',
          dmf = \<lparr>workspace_path = Path ''/'' [''ws''], resources = [], relations = [], pending = []\<rparr>,
          calls = []\<rparr>"

abbreviation r0 :: resource where
  "r0 \<equiv> \<lparr>rid = 7, rname = ''data'', rdesc = [], datafiles = [], datafiles_dir = []\<rparr>"

abbreviation d0 :: dataset where
  "d0 \<equiv> \<lparr>name = ''data'', meta = [(''resource'', ResV r0)]\<rparr>"

abbreviation m0 :: "unit callable" where
  "m0 \<equiv> Callable ''mod'' ''step'' (\<lambda>ins u. Some [(''out'', ''dir'', [''f''])])"

text \<open>
  An environment whose \<^verbatim>\<open>resolve\<close> leaves a path as it is; the resource of the script
  \<^verbatim>\<open>/ws/downloads/run.py\<close> and the resource of a step; a workflow whose store records that
  the step has used the script, and one whose store holds two resources named as the script.
\<close>

abbreviation e0 :: env where
  "e0 \<equiv> \<lparr>resolve = (\<lambda>p. p), download = (\<lambda>t. Path [] []), listdir = (\<lambda>d. [])\<rparr>"

abbreviation script0 :: resource where
  "script0 \<equiv> \<lparr>rid = 3, rname = ''script:run.py'', rdesc = [],
               datafiles = [(''run.py'', ''rts-gmlc file run.py'')], datafiles_dir = ''/ws/downloads''\<rparr>"

abbreviation step0 :: resource where
  "step0 \<equiv> \<lparr>rid = 4, rname = ''mod.step'', rdesc = ''Processing step mod.step'',
             datafiles = [], datafiles_dir = []\<rparr>"

abbreviation w_ran :: managed_workflow where
  "w_ran \<equiv> \<lparr>wf_name = ''wf'', workspace_name = ''ws'',
          dmf = \<lparr>workspace_path = Path ''/'' [''ws''], resources = [script0, step0],
                 relations = [(4, uses, 3)], pending = []\<rparr>,
          calls = []\<rparr>"

abbreviation w_dup :: managed_workflow where
  "w_dup \<equiv> \<lparr>wf_name = ''wf'', workspace_name = ''ws'',
          dmf = \<lparr>workspace_path = Path ''/'' [''ws''], resources = [script0, script0\<lparr>rid := 5\<rparr>],
                 relations = [], pending = []\<rparr>,
          calls = []\<rparr>"

text \<open>
  A workflow whose store records that the step \<^verbatim>\<open>mod.step\<close> has used the resource of the
  dataset above.
\<close>

abbreviation w_done :: managed_workflow where
  "w_done \<equiv> \<lparr>wf_name = ''wf'', workspace_name = ''ws'',
          dmf = \<lparr>workspace_path = Path ''/'' [''ws''], resources = [r0, step0],
                 relations = [(4, uses, 7)], pending = []\<rparr>,
          calls = []\<rparr>"

text \<open>
  A \<^verbatim>\<open>re.compile\<close> that accepts every pattern, and a decoder that accepts every line but
  the single byte \<^verbatim>\<open>0xFF\<close>, which is not UTF-8.
\<close>

abbreviation rc0 :: "string \<Rightarrow> error + (string \<Rightarrow> bool)" where
  "rc0 \<equiv> (\<lambda>s. Inr (\<lambda>t. True))"

abbreviation dec0 :: "string \<Rightarrow> string option" where
  "dec0 \<equiv> (\<lambda>b. if b = [CHR 0xFF] then None else Some b)"

section \<open>Properties of Dataset and DatasetFactory\<close>

text \<open>
  Claim C3. Assigning \<^verbatim>\<open>Dataset.resource\<close> twice raises on the second assignment, and the
  dataset is left as the first assignment left it. The exception of the source is
  \<^verbatim>\<open>ValueError\<close> with the message below; the specification calls it InvalidStateError.
  On a dataset that has no resource yet, the first assignment succeeds, and the getter returns
  the first value before and after the failed second assignment.
\<close>

theorem resource_setter_twice:
  "(case resource_setter v ds of (res, ds') \<Rightarrow>
      (case resource_setter v' ds' of (res', ds'') \<Rightarrow>
          res' = Inl (ValueError ''Cannot set 'resource' on a dataset more than once'')
        \<and> ds'' = ds'
        \<and> (map_of (meta ds) ''resource'' = None \<longrightarrow>
             res = Inr () \<and> resource_getter ds' = v \<and> resource_getter ds'' = v)))"
  by (simp add: resource_setter_def resource_getter_def update_conv')

theorem resource_setter_twice_witness:
  "fst (resource_setter (ResV script0) (snd (resource_setter (ResV r0) (Dataset ''d''))))
     = Inl (ValueError ''Cannot set 'resource' on a dataset more than once'')
   \<and> resource_getter
         (snd (resource_setter (ResV script0) (snd (resource_setter (ResV r0) (Dataset ''d'')))))
       = ResV r0"
  using resource_setter_twice [where v = "ResV r0" and ds = "Dataset ''d''" and v' = "ResV script0"]
  by (simp add: Dataset_def split: prod.splits)

text \<open>
  Claim C4. The claim is that no operation of \<^verbatim>\<open>Dataset\<close> can overwrite the entry
  \<^verbatim>\<open>"resource"\<close> once it is set. The setter refuses (C3), but \<^verbatim>\<open>add_meta\<close> writes any key
  without a check: after an assignment of the resource, successful or refused,
  \<^verbatim>\<open>add_meta("resource", v')\<close> returns normally and the getter returns \<open>v'\<close>.
\<close>

theorem add_meta_replaces_resource:
  "resource_getter (add_meta ''resource'' v' (snd (resource_setter v ds))) = v'"
  by (simp add: add_meta_def resource_getter_def update_conv')

text \<open>
  Claim C5, amended. The creation function of the type \<^verbatim>\<open>script\<close> builds, from a path
  \<open>p\<close>, a dataset whose name is \<^verbatim>\<open>script:\<close> followed by the last component of \<open>p\<close>
  (empty when \<open>p\<close> has no component), whose \<^verbatim>\<open>directory\<close> is the resolved parent of \<open>p\<close>
  and whose \<^verbatim>\<open>files\<close> is the one-element list of that last component. These are its
  only two metadata entries.
\<close>

theorem script_dataset:
  "get_factory_function ''script'' = Inr ScriptFn
   \<and> create e ScriptFn t (Some p) = Inr (script_fn e p)
   \<and> name (script_fn e p) = ''script:'' @ path_name p
   \<and> path_name p = (if segs p = [] then [] else last (segs p))
   \<and> map_of (meta (script_fn e p)) ''directory''
       = Some (PathV (resolve e (Path (anchor p) (butlast (segs p)))))
   \<and> map_of (meta (script_fn e p)) ''files'' = Some (ListV [path_name p])
   \<and> map fst (meta (script_fn e p)) = [''directory'', ''files'']"
  by (simp add: get_factory_function_def RTS_GMLC_def create_def script_fn_def add_meta_def
      Dataset_def path_name_def path_parent_def)

text \<open>
  The claim as it was stated, that the name of the dataset equals the file name of the
  script, fails: for \<^verbatim>\<open>/tmp/run.py\<close> the name is \<^verbatim>\<open>script:run.py\<close>.
\<close>

theorem script_name_counterexample:
  "name (script_fn e0 (Path ''/'' [''tmp'', ''run.py''])) \<noteq> path_name (Path ''/'' [''tmp'', ''run.py''])
   \<and> name (script_fn e0 (Path ''/'' [''tmp'', ''run.py''])) = ''script:run.py''
   \<and> path_name (Path ''/'' [''tmp'', ''run.py'']) = ''run.py''"
  by (simp add: script_fn_def add_meta_def Dataset_def path_name_def)

section \<open>The store after a processing step\<close>

text \<open>
  The identifier of a new resource is above every identifier the store mentions, so the
  resource of a new step is the subject of no relation made before it.
\<close>

lemma new_id_fresh: "i \<in> set (known_ids st) \<Longrightarrow> i < new_id st"
proof -
  assume i: "i \<in> set (known_ids st)"
  have "fold max (known_ids st) 0 = Max (set (0 # known_ids st))"
    by (simp only: Max.set_eq_fold)
  moreover have "i \<le> Max (set (0 # known_ids st))"
    using i by (intro Max_ge) auto
  ultimately show ?thesis
    by (simp add: new_id_def)
qed

lemma proc_step_input_ids_eq:
  "proc_step_input_ids st ps = {i. (rid ps, uses, i) \<in> set (relations st)}"
  by (force simp: proc_step_input_ids_def find_related_def image_iff)

lemma add_input_relations_ok:
  assumes "\<forall>d\<in>set ds. \<exists>r. map_of (meta d) ''resource'' = Some (ResV r)"
  shows "\<exists>ids rels. resource_ids ds = Inr (Some ` ids)
           \<and> add_input_relations step ds st = (Inr (), st\<lparr>pending := pending st @ rels\<rparr>)
           \<and> set rels = (\<lambda>i. (rid step, uses, i)) ` ids"
  using assms
proof (induction ds arbitrary: st)
  case Nil
  have "resource_ids [] = Inr (Some ` {})" by simp
  moreover have "add_input_relations step [] st = (Inr (), st\<lparr>pending := pending st @ []\<rparr>)" by simp
  ultimately show ?case by (metis image_empty set_empty2)
next
  case (Cons d ds)
  then obtain r where r: "map_of (meta d) ''resource'' = Some (ResV r)" by auto
  let ?st = "create_relation step uses r st"
  from Cons obtain ids rels where
    a: "resource_ids ds = Inr (Some ` ids)" and
    b: "add_input_relations step ds ?st = (Inr (), ?st\<lparr>pending := pending ?st @ rels\<rparr>)" and
    c: "set rels = (\<lambda>i. (rid step, uses, i)) ` ids"
    by (metis list.set_intros(2))
  have "resource_ids (d # ds) = Inr (Some ` insert (rid r) ids)"
    using r a by (simp add: resource_id_def)
  moreover have "add_input_relations step (d # ds) st
      = (Inr (), st\<lparr>pending := pending st @ ((rid step, uses, rid r) # rels)\<rparr>)"
    using r b by (simp add: resource_getter_def create_relation_def)
  moreover have "set ((rid step, uses, rid r) # rels) = (\<lambda>i. (rid step, uses, i)) ` insert (rid r) ids"
    using c by simp
  ultimately show ?case by blast
qed

lemma add_outputs_shape:
  "\<exists>rs rels. add_outputs sn step os st = st\<lparr>resources := resources st @ rs, pending := pending st @ rels\<rparr>
       \<and> (\<forall>rel\<in>set rels. fst (snd rel) = derived)"
proof (induction os arbitrary: st)
  case Nil
  have "add_outputs sn step [] st = st\<lparr>resources := resources st @ [], pending := pending st @ []\<rparr>"
    by simp
  then show ?case by (metis empty_iff empty_set)
next
  case (Cons x os)
  obtain key dir_path files where x: "x = (key, dir_path, files)" by (cases x) auto
  define r where "r = set_name key (Resource st (''Output files for processing step '' @ sn)
      (map (\<lambda>filename. (filename, RTS_GMLC @ '' file '' @ filename)) files) dir_path)"
  let ?st = "create_relation r derived step (add r st)"
  from Cons obtain rs rels where
    a: "add_outputs sn step os ?st = ?st\<lparr>resources := resources ?st @ rs, pending := pending ?st @ rels\<rparr>"
    and b: "\<forall>rel\<in>set rels. fst (snd rel) = derived"
    by blast
  have "add_outputs sn step (x # os) st
      = st\<lparr>resources := resources st @ (r # rs), pending := pending st @ ((rid r, derived, rid step) # rels)\<rparr>"
    using a by (simp add: x r_def Let_def create_relation_def add_def)
  moreover have "\<forall>rel\<in>set ((rid r, derived, rid step) # rels). fst (snd rel) = derived"
    using b by simp
  ultimately show ?case by blast
qed


lemma step_recorded:
  assumes sid: "rid step = new_id st0" and nm: "rname step = s"
    and inrels: "set inrels = (\<lambda>i. (rid step, uses, i)) ` ids"
    and rels: "\<forall>rel\<in>set rels. fst (snd rel) = derived"
    and st': "st' = update (st0\<lparr>resources := resources st0 @ step # rs,
                                pending := pending st0 @ inrels @ rels\<rparr>)"
  shows "step \<in> set (find_dmf st' s) \<and> proc_step_input_ids st' step = ids"
proof -
  have old: "(rid step, uses, i) \<notin> set (relations st0 @ pending st0)" for i
  proof
    assume "(rid step, uses, i) \<in> set (relations st0 @ pending st0)"
    then have "rid step \<in> set (known_ids st0)"
      by (force simp: known_ids_def)
    then show False
      using new_id_fresh [of "rid step" st0] sid by simp
  qed
  have new: "(rid step, uses, i) \<notin> set rels" for i
    using rels by force
  have "relations st' = relations st0 @ pending st0 @ inrels @ rels"
    by (simp add: st' update_def)
  then have "proc_step_input_ids st' step = {i. (rid step, uses, i) \<in> set inrels}"
    using old new by (auto simp: proc_step_input_ids_eq)
  also have "\<dots> = ids"
    using inrels by auto
  finally have "proc_step_input_ids st' step = ids" .
  moreover have "step \<in> set (find_dmf st' s)"
    by (simp add: st' update_def find_dmf_def nm)
  ultimately show ?thesis by simp
qed

lemma run_existing:
  "input_ids_of (normalize_inputs i) = Inr I \<Longrightarrow> existing (dmf w) (step_name_of m) I
   \<Longrightarrow> run m i False a w = (Inr None, w)"
  by (simp add: run_def Let_def)

lemma link_inputs_shape_ids:
  assumes "\<forall>ds. ins = Some ds \<longrightarrow>
               (\<forall>d\<in>set ds. \<exists>r. map_of (meta d) ''resource'' = Some (ResV r))"
  shows "\<exists>I. input_ids_of ins = Inr I"
proof (cases ins)
  case None
  then show ?thesis by (simp add: input_ids_of_def)
next
  case (Some ds)
  then have "\<forall>d\<in>set ds. \<exists>r. map_of (meta d) ''resource'' = Some (ResV r)"
    using assms by simp
  from add_input_relations_ok [OF this] obtain ids where "resource_ids ds = Inr (Some ` ids)"
    by blast
  then show ?thesis using Some by (simp add: input_ids_of_def)
qed

lemma link_inputs_shape:
  assumes I: "input_ids_of ins = Inr I"
    and res: "\<forall>ds. ins = Some ds \<longrightarrow>
               (\<forall>d\<in>set ds. \<exists>r. map_of (meta d) ''resource'' = Some (ResV r))"
  shows "\<exists>ids inrels.
           (case ins of None \<Rightarrow> (Inr (), st) | Some ds \<Rightarrow> add_input_relations step ds st)
             = (Inr (), st\<lparr>pending := pending st @ inrels\<rparr>)
           \<and> set inrels = (\<lambda>i. (rid step, uses, i)) ` ids
           \<and> same_inputs I ids"
proof (cases ins)
  case None
  have "(case ins of None \<Rightarrow> (Inr (), st) | Some ds \<Rightarrow> add_input_relations step ds st)
           = (Inr (), st\<lparr>pending := pending st @ []\<rparr>)"
    using None by simp
  moreover have "set [] = (\<lambda>i. (rid step, uses, i)) ` {}" by simp
  moreover have "same_inputs I {}"
    using I None by (simp add: input_ids_of_def same_inputs_def)
  ultimately show ?thesis by blast
next
  case (Some ds)
  then have "\<forall>d\<in>set ds. \<exists>r. map_of (meta d) ''resource'' = Some (ResV r)"
    using res by simp
  from add_input_relations_ok [OF this, of step st]
  obtain ids inrels where
    a: "resource_ids ds = Inr (Some ` ids)" and
    b: "add_input_relations step ds st = (Inr (), st\<lparr>pending := pending st @ inrels\<rparr>)" and
    c: "set inrels = (\<lambda>i. (rid step, uses, i)) ` ids"
    by blast
  have "I = Some (Some ` ids)"
    using I Some a by (simp add: input_ids_of_def)
  then have "same_inputs I ids"
    by (simp add: same_inputs_def)
  moreover have "(case ins of None \<Rightarrow> (Inr (), st) | Some ds \<Rightarrow> add_input_relations step ds st)
           = (Inr (), st\<lparr>pending := pending st @ inrels\<rparr>)"
    using Some b by simp
  ultimately show ?thesis using c by blast
qed

lemma outputs_shape:
  "\<exists>rs rels. (case outs of None \<Rightarrow> st | Some os \<Rightarrow> add_outputs sn step os st)
                = st\<lparr>resources := resources st @ rs, pending := pending st @ rels\<rparr>
       \<and> (\<forall>rel\<in>set rels. fst (snd rel) = derived)"
proof (cases outs)
  case None
  have "(case outs of None \<Rightarrow> st | Some os \<Rightarrow> add_outputs sn step os st)
            = st\<lparr>resources := resources st @ [], pending := pending st @ []\<rparr>"
    using None by simp
  moreover have "\<forall>rel\<in>set ([] :: relation list). fst (snd rel) = derived" by simp
  ultimately show ?thesis by blast
next
  case (Some os)
  then show ?thesis
    using add_outputs_shape [of sn step os st] by simp
qed


lemma run_step:
  assumes chk: "sc \<or> (\<exists>I. input_ids_of (normalize_inputs i) = Inr I
                          \<and> \<not> existing (dmf w) (step_name_of m) I)"
    and step: "step = set_name (step_name_of m)
                        (Resource (dmf w) (''Processing step '' @ step_name_of m) [] [])"
    and link: "(case normalize_inputs i of None \<Rightarrow> (Inr (), add step (dmf w))
                | Some ds \<Rightarrow> add_input_relations step ds (add step (dmf w))) = (Inr (), st2)"
  shows "run m i sc a w
           = (Inr None,
              w\<lparr>calls := calls w @ [(step_name_of m, normalize_inputs i)],
                dmf := update (case call m (normalize_inputs i) a of None \<Rightarrow> st2
                               | Some os \<Rightarrow> add_outputs (step_name_of m) step os st2)\<rparr>)"
proof -
  have c: "(if sc then Inr False
            else (case input_ids_of (normalize_inputs i) of Inl e \<Rightarrow> Inl e
                  | Inr input_ids \<Rightarrow> Inr (existing (dmf w) (step_name_of m) input_ids)))
           = Inr False"
    using chk by auto
  show ?thesis
  proof (cases "normalize_inputs i")
    case None
    with link have "st2 = add step (dmf w)" by simp
    then show ?thesis
      unfolding run_def Let_def by (simp only: c) (simp add: None step cong: option.case_cong)
  next
    case (Some ds)
    with link have "add_input_relations step ds (add step (dmf w)) = (Inr (), st2)" by simp
    then show ?thesis
      unfolding run_def Let_def by (simp only: c) (simp add: Some step cong: option.case_cong)
  qed
qed


lemma run_executes:
  assumes I: "input_ids_of (normalize_inputs i) = Inr I"
    and ne: "sc \<or> \<not> existing (dmf w) (step_name_of m) I"
    and res: "\<forall>ds. normalize_inputs i = Some ds \<longrightarrow>
               (\<forall>d\<in>set ds. \<exists>r. map_of (meta d) ''resource'' = Some (ResV r))"
  shows "\<exists>st'. run m i sc a w
             = (Inr None, w\<lparr>calls := calls w @ [(step_name_of m, normalize_inputs i)], dmf := st'\<rparr>)
           \<and> existing st' (step_name_of m) I
           \<and> (\<exists>rs. resources st' = resources (dmf w) @ rs)"
proof -
  let ?s = "step_name_of m"
  let ?step = "set_name ?s (Resource (dmf w) (''Processing step '' @ ?s) [] [])"
  let ?st1 = "add ?step (dmf w)"
  from link_inputs_shape [OF I res, where st = ?st1 and step = ?step] obtain ids inrels where
    l: "(case normalize_inputs i of None \<Rightarrow> (Inr (), ?st1)
         | Some ds \<Rightarrow> add_input_relations ?step ds ?st1)
        = (Inr (), ?st1\<lparr>pending := pending ?st1 @ inrels\<rparr>)"
    and inrels: "set inrels = (\<lambda>i. (rid ?step, uses, i)) ` ids"
    and same: "same_inputs I ids"
    by blast
  let ?st2 = "?st1\<lparr>pending := pending ?st1 @ inrels\<rparr>"
  let ?outs = "call m (normalize_inputs i) a"
  from outputs_shape [where outs = ?outs and st = ?st2 and sn = ?s and step = ?step] obtain rs rels where
    o: "(case ?outs of None \<Rightarrow> ?st2 | Some os \<Rightarrow> add_outputs ?s ?step os ?st2)
        = ?st2\<lparr>resources := resources ?st2 @ rs, pending := pending ?st2 @ rels\<rparr>"
    and rels: "\<forall>rel\<in>set rels. fst (snd rel) = derived"
    by blast
  let ?st' = "update (?st2\<lparr>resources := resources ?st2 @ rs, pending := pending ?st2 @ rels\<rparr>)"
  have chk: "sc \<or> (\<exists>I. input_ids_of (normalize_inputs i) = Inr I \<and> \<not> existing (dmf w) ?s I)"
    using I ne by blast
  have "run m i sc a w
      = (Inr None,
         w\<lparr>calls := calls w @ [(?s, normalize_inputs i)],
           dmf := update (case ?outs of None \<Rightarrow> ?st2 | Some os \<Rightarrow> add_outputs ?s ?step os ?st2)\<rparr>)"
    by (rule run_step [OF chk refl l])
  then have r: "run m i sc a w
      = (Inr None, w\<lparr>calls := calls w @ [(?s, normalize_inputs i)], dmf := ?st'\<rparr>)"
    by (simp only: o)
  have e: "?st' = update ((dmf w)\<lparr>resources := resources (dmf w) @ ?step # rs,
                                 pending := pending (dmf w) @ inrels @ rels\<rparr>)"
    by (simp add: add_def)
  have sid: "rid ?step = new_id (dmf w)" and nm: "rname ?step = ?s"
    by (simp_all add: set_name_def Resource_def)
  from step_recorded [OF sid nm inrels rels e]
  have "?step \<in> set (find_dmf ?st' ?s)" and "proc_step_input_ids ?st' ?step = ids"
    by blast+
  then have "existing ?st' ?s I"
    using same unfolding existing_def list_ex_iff by blast
  moreover have "resources ?st' = resources (dmf w) @ ?step # rs"
    by (simp add: update_def add_def)
  ultimately show ?thesis using r by blast
qed

lemma run_result_None: "fst (run m i sc a w) = Inr r \<Longrightarrow> r = None"
  by (auto simp: run_def Let_def split: sum.splits bool.splits prod.splits if_splits)

lemma run_script_result_None: "fst (run_script e m f a w) = Inr r \<Longrightarrow> r = None"
  by (auto simp: run_script_def Let_def dest: run_result_None
      split: sum.splits prod.splits if_splits)

lemma zero_uses:
  "(proc_step_input_ids st ps = {})
     = (filter (\<lambda>rel. fst rel = rid ps \<and> fst (snd rel) = uses) (relations st) = [])"
  by (force simp: proc_step_input_ids_eq filter_empty_conv)

lemma card_input_ids:
  "(card (proc_step_input_ids st ps) = 0) = (proc_step_input_ids st ps = {})"
  by (simp add: proc_step_input_ids_def)

lemma existing_None:
  "existing st n None
     = (\<exists>ps\<in>set (find_dmf st n).
          filter (\<lambda>rel. fst rel = rid ps \<and> fst (snd rel) = uses) (relations st) = [])"
  by (simp add: existing_def same_inputs_def list_ex_iff card_input_ids zero_uses)

lemma existing_empty:
  "existing st n (Some {}) = existing st n None"
  by (simp add: existing_def same_inputs_def list_ex_iff card_input_ids)

lemma run_skipped_iff:
  assumes I: "input_ids_of (normalize_inputs i) = Inr I"
    and res: "\<forall>ds. normalize_inputs i = Some ds \<longrightarrow>
               (\<forall>d\<in>set ds. \<exists>r. map_of (meta d) ''resource'' = Some (ResV r))"
  shows "(snd (run m i False a w) = w) = existing (dmf w) (step_name_of m) I"
proof (cases "existing (dmf w) (step_name_of m) I")
  case True
  then show ?thesis using run_existing [OF I True] by simp
next
  case False
  then obtain st' where
    "run m i False a w
       = (Inr None, w\<lparr>calls := calls w @ [(step_name_of m, normalize_inputs i)], dmf := st'\<rparr>)"
    using run_executes [OF I _ res, where sc = False and w = w and m = m and a = a] by blast
  then have "calls (snd (run m i False a w)) = calls w @ [(step_name_of m, normalize_inputs i)]"
    by simp
  then have "snd (run m i False a w) \<noteq> w"
    by (metis append_self_conv list.distinct(1))
  then show ?thesis using False by simp
qed

lemma run_m0:
  "\<exists>st'. run m0 NoInputs False () w0 = (Inr None, w0\<lparr>calls := [(''mod.step'', None)], dmf := st'\<rparr>)"
proof -
  have I: "input_ids_of (normalize_inputs NoInputs) = Inr None"
    by (simp add: input_ids_of_def normalize_inputs_def)
  have ne: "False \<or> \<not> existing (dmf w0) (step_name_of m0) None"
    by (simp add: existing_def find_dmf_def)
  have res: "\<forall>ds. normalize_inputs NoInputs = Some ds \<longrightarrow>
               (\<forall>d\<in>set ds. \<exists>r. map_of (meta d) ''resource'' = Some (ResV r))"
    by (simp add: normalize_inputs_def)
  from run_executes [OF I ne res, where a = "()"] show ?thesis
    by (auto simp: step_name_of_def normalize_inputs_def)
qed

text \<open>The three branches of \<^verbatim>\<open>run_script\<close>, each on its own.\<close>

lemma script_fn_no_resource: "map_of (meta (script_fn e p)) ''resource'' = None"
  by (simp add: script_fn_def add_meta_def Dataset_def)

lemma resource_setter_fresh:
  "map_of (meta d) ''resource'' = None \<Longrightarrow>
   fst (resource_setter v d) = Inr ()
   \<and> map_of (meta (snd (resource_setter v d))) ''resource'' = Some v
   \<and> name (snd (resource_setter v d)) = name d"
  by (simp add: resource_setter_def update_conv')

lemma input_ids_single:
  "map_of (meta d) ''resource'' = Some (ResV r)
   \<Longrightarrow> input_ids_of (normalize_inputs (Many [d])) = Inr (Some {Some (rid r)})"
  by (simp add: input_ids_of_def normalize_inputs_def resource_id_def)

lemma add_to_dmf_script:
  "add_to_dmf e (script_fn e p) st
     = (Inr (),
        snd (resource_setter
               (ResV (set_name (name (script_fn e p))
                        (Resource st [] [(path_name p, RTS_GMLC @ '' file '' @ path_name p)]
                           (path_str (resolve e (resolve e (path_parent p)))))))
               (script_fn e p)),
        add (set_name (name (script_fn e p))
               (Resource st [] [(path_name p, RTS_GMLC @ '' file '' @ path_name p)]
                  (path_str (resolve e (resolve e (path_parent p))))))
            st)"
  by (simp add: add_to_dmf_def script_fn_def add_meta_def Dataset_def resource_setter_def Let_def)

lemma run_script_unfold:
  "run_script e runner filename c w =
     (let ds = script_fn e (joinpath (download_path w) (parse_path filename));
          found = find_dmf (dmf w) (name ds)
      in if length found = 0 then
           (case add_to_dmf e ds (dmf w) of
              (Inl err, ds1, st1) \<Rightarrow> (Inl err, w\<lparr>dmf := st1\<rparr>)
            | (Inr u, ds1, st1) \<Rightarrow> run runner (Many [ds1]) True c (w\<lparr>dmf := st1\<rparr>))
         else if length found = 1 then
           (case resource_setter (ResV (found ! 0)) ds of
              (Inl err, ds1) \<Rightarrow> (Inl err, w)
            | (Inr u, ds1) \<Rightarrow> run runner (Many [ds1]) False c w)
         else
           (Inl (ValueError (''Got '' @ str_nat (length found)
                  @ '' resources for script configuration, expected at most one: ''
                  @ path_str (joinpath (download_path w) (parse_path filename)))), w))"
  by (simp add: run_script_def DatasetFactory_def get_factory_function_def RTS_GMLC_def create_def
      Let_def)


lemma run_script_none_found:
  assumes ds: "ds = script_fn e (joinpath (download_path w) (parse_path filename))"
    and none: "find_dmf (dmf w) (name ds) = []"
  shows "\<exists>r w'. rid r = new_id (dmf w) \<and> rname r = name ds
            \<and> map fst (datafiles r) = [path_name (joinpath (download_path w) (parse_path filename))]
            \<and> run_script e runner filename c w = (Inr None, w')
            \<and> r \<in> set (find_dmf (dmf w') (name ds))
            \<and> calls w' = calls w @ [(step_name_of runner, Some [snd (resource_setter (ResV r) ds)])]"
proof -
  let ?p = "joinpath (download_path w) (parse_path filename)"
  let ?r = "set_name (name ds)
              (Resource (dmf w) [] [(path_name ?p, RTS_GMLC @ '' file '' @ path_name ?p)]
                 (path_str (resolve e (resolve e (path_parent ?p)))))"
  let ?ds1 = "snd (resource_setter (ResV ?r) ds)"
  let ?w1 = "w\<lparr>dmf := add ?r (dmf w)\<rparr>"
  have a: "add_to_dmf e ds (dmf w) = (Inr (), ?ds1, add ?r (dmf w))"
    unfolding ds by (rule add_to_dmf_script)
  have rs: "run_script e runner filename c w = run runner (Many [?ds1]) True c ?w1"
    using none by (simp add: run_script_unfold Let_def ds [symmetric] a)
  have m: "map_of (meta ?ds1) ''resource'' = Some (ResV ?r)"
    using resource_setter_fresh [of ds "ResV ?r"] script_fn_no_resource [of e ?p] ds by simp
  have I: "input_ids_of (normalize_inputs (Many [?ds1])) = Inr (Some {Some (rid ?r)})"
    using m by (rule input_ids_single)
  have res: "\<forall>xs. normalize_inputs (Many [?ds1]) = Some xs \<longrightarrow>
               (\<forall>d\<in>set xs. \<exists>r. map_of (meta d) ''resource'' = Some (ResV r))"
    using m by (simp add: normalize_inputs_def)
  from run_executes [OF I _ res, where sc = True and w = ?w1 and m = runner and a = c]
  obtain st' rs' where
    r: "run runner (Many [?ds1]) True c ?w1
          = (Inr None, ?w1\<lparr>calls := calls ?w1 @ [(step_name_of runner, normalize_inputs (Many [?ds1]))],
                          dmf := st'\<rparr>)"
    and rs': "resources st' = resources (dmf ?w1) @ rs'"
    by auto
  let ?w' = "?w1\<lparr>calls := calls ?w1 @ [(step_name_of runner, normalize_inputs (Many [?ds1]))],
                 dmf := st'\<rparr>"
  have f1: "rid ?r = new_id (dmf w)" and f2: "rname ?r = name ds"
    and f3: "map fst (datafiles ?r) = [path_name ?p]"
    by (simp_all add: set_name_def Resource_def)
  have f4: "run_script e runner filename c w = (Inr None, ?w')"
    using rs r by simp
  have f5: "?r \<in> set (find_dmf (dmf ?w') (name ds))"
    using rs' by (simp add: find_dmf_def add_def set_name_def)
  have f6: "calls ?w' = calls w @ [(step_name_of runner, Some [?ds1])]"
    by (simp add: normalize_inputs_def)
  show ?thesis
    by (rule exI [of _ ?r], rule exI [of _ ?w']) (intro conjI f1 f2 f3 f4 f5 f6)
qed

lemma run_script_one_found:
  assumes ds: "ds = script_fn e (joinpath (download_path w) (parse_path filename))"
    and one: "find_dmf (dmf w) (name ds) = [r]"
  shows "run_script e runner filename c w
           = run runner (Many [snd (resource_setter (ResV r) ds)]) False c w
         \<and> (existing (dmf w) (step_name_of runner) (Some {Some (rid r)})
              \<longrightarrow> run_script e runner filename c w = (Inr None, w))
         \<and> (\<not> existing (dmf w) (step_name_of runner) (Some {Some (rid r)})
              \<longrightarrow> (\<exists>w'. run_script e runner filename c w = (Inr None, w')
                     \<and> calls w' = calls w
                          @ [(step_name_of runner, Some [snd (resource_setter (ResV r) ds)])]))"
proof -
  let ?ds1 = "snd (resource_setter (ResV r) ds)"
  have n: "map_of (meta ds) ''resource'' = None"
    unfolding ds by (rule script_fn_no_resource)
  have f: "fst (resource_setter (ResV r) ds) = Inr ()"
    and m: "map_of (meta ?ds1) ''resource'' = Some (ResV r)"
    using resource_setter_fresh [OF n, of "ResV r"] by simp_all
  obtain ds1 where s1: "resource_setter (ResV r) ds = (Inr (), ds1)"
    using f by (cases "resource_setter (ResV r) ds") auto
  have rs: "run_script e runner filename c w = run runner (Many [?ds1]) False c w"
    using one by (simp add: run_script_unfold Let_def ds [symmetric] s1)
  have I: "input_ids_of (normalize_inputs (Many [?ds1])) = Inr (Some {Some (rid r)})"
    using m by (rule input_ids_single)
  have res: "\<forall>xs. normalize_inputs (Many [?ds1]) = Some xs \<longrightarrow>
               (\<forall>d\<in>set xs. \<exists>r. map_of (meta d) ''resource'' = Some (ResV r))"
    using m by (simp add: normalize_inputs_def)
  have "existing (dmf w) (step_name_of runner) (Some {Some (rid r)})
          \<longrightarrow> run_script e runner filename c w = (Inr None, w)"
    using run_existing [OF I, where w = w and m = runner and a = c] rs by simp
  moreover have "\<not> existing (dmf w) (step_name_of runner) (Some {Some (rid r)})
          \<longrightarrow> (\<exists>w'. run_script e runner filename c w = (Inr None, w')
                 \<and> calls w' = calls w @ [(step_name_of runner, Some [?ds1])])"
  proof
    assume "\<not> existing (dmf w) (step_name_of runner) (Some {Some (rid r)})"
    then obtain st' where
      "run runner (Many [?ds1]) False c w
         = (Inr None, w\<lparr>calls := calls w @ [(step_name_of runner, normalize_inputs (Many [?ds1]))],
                        dmf := st'\<rparr>)"
      using run_executes [OF I _ res, where sc = False and w = w and m = runner and a = c] by blast
    then show "\<exists>w'. run_script e runner filename c w = (Inr None, w')
                 \<and> calls w' = calls w @ [(step_name_of runner, Some [?ds1])]"
      using rs by (simp add: normalize_inputs_def)
  qed
  ultimately show ?thesis using rs by blast
qed

lemma run_script_many_found:
  assumes ds: "ds = script_fn e (joinpath (download_path w) (parse_path filename))"
    and many: "1 < length (find_dmf (dmf w) (name ds))"
  shows "run_script e runner filename c w
           = (Inl (ValueError (''Got '' @ str_nat (length (find_dmf (dmf w) (name ds)))
                  @ '' resources for script configuration, expected at most one: ''
                  @ path_str (joinpath (download_path w) (parse_path filename)))), w)"
proof -
  have n0: "\<not> length (find_dmf (dmf w) (name ds)) = 0"
    and n1: "\<not> length (find_dmf (dmf w) (name ds)) = 1"
    using many by auto
  show ?thesis
    unfolding run_script_unfold Let_def ds [symmetric]
    by (simp only: n0 n1 if_False)
qed

lemma script_name0:
  "name (script_fn e (joinpath (download_path \<lparr>wf_name = n, workspace_name = k,
      dmf = \<lparr>workspace_path = Path ''/'' [''ws''], resources = rs, relations = rl, pending = pe\<rparr>,
      calls = cs\<rparr>) (parse_path ''run.py''))) = ''script:run.py''"
  by (simp add: script_fn_def add_meta_def Dataset_def download_path_def joinpath_def
      parse_path_def path_name_def)

section \<open>Properties of ManagedWorkflow\<close>

text \<open>
  Claim C1, amended. Take a processing step and inputs that are \<^verbatim>\<open>None\<close>, one dataset or a
  list of datasets, each with a resource attached, and let \<open>I\<close> be the set of resource
  identifiers that \<^verbatim>\<open>run\<close> computes from them. The first call of \<^verbatim>\<open>run\<close> with
  \<^verbatim>\<open>skip_check\<close> false returns normally and leaves a workflow \<open>w1\<close>; the second call, on
  \<open>w1\<close>, returns and leaves \<open>w1\<close> as it is: no call of the step function, no resource and no
  relation is added. In \<open>w1\<close> the check of the source finds a resource named as the step whose
  outgoing \<^verbatim>\<open>uses\<close> relations have exactly the targets \<open>I\<close>. The two calls together call
  the step function at most once: exactly once when the store held no such resource before the
  first call, and not at all when it did, for then the first call already changes nothing.
\<close>

theorem run_twice:
  assumes res: "\<forall>ds. normalize_inputs i = Some ds \<longrightarrow>
               (\<forall>d\<in>set ds. \<exists>r. map_of (meta d) ''resource'' = Some (ResV r))"
  shows "\<exists>I w1. input_ids_of (normalize_inputs i) = Inr I
          \<and> run m i False a w = (Inr None, w1)
          \<and> run m i False a w1 = (Inr None, w1)
          \<and> existing (dmf w1) (step_name_of m) I
          \<and> (existing (dmf w) (step_name_of m) I \<longrightarrow> w1 = w)
          \<and> (\<not> existing (dmf w) (step_name_of m) I \<longrightarrow>
               calls w1 = calls w @ [(step_name_of m, normalize_inputs i)])"
proof -
  obtain I where I: "input_ids_of (normalize_inputs i) = Inr I"
    using link_inputs_shape_ids [OF res] by blast
  show ?thesis
  proof (cases "existing (dmf w) (step_name_of m) I")
    case True
    then have "run m i False a w = (Inr None, w)"
      using I by (rule run_existing [rotated])
    then show ?thesis using I True by auto
  next
    case False
    then obtain st' where
      r: "run m i False a w
           = (Inr None, w\<lparr>calls := calls w @ [(step_name_of m, normalize_inputs i)], dmf := st'\<rparr>)"
      and e: "existing st' (step_name_of m) I"
      using run_executes [OF I _ res, where sc = False and w = w and m = m and a = a] by blast
    let ?w1 = "w\<lparr>calls := calls w @ [(step_name_of m, normalize_inputs i)], dmf := st'\<rparr>"
    have "run m i False a ?w1 = (Inr None, ?w1)"
      using I e by (intro run_existing) simp_all
    then show ?thesis using I r e False by auto
  qed
qed

theorem run_twice_witness:
  "fst (run m0 (Many [d0]) False () w0) = Inr None
   \<and> run m0 (Many [d0]) False () (snd (run m0 (Many [d0]) False () w0))
       = (Inr None, snd (run m0 (Many [d0]) False () w0))
   \<and> calls (snd (run m0 (Many [d0]) False () w0)) = [(''mod.step'', Some [d0])]"
proof -
  have res: "\<forall>ds. normalize_inputs (Many [d0]) = Some ds \<longrightarrow>
               (\<forall>d\<in>set ds. \<exists>r. map_of (meta d) ''resource'' = Some (ResV r))"
    by (simp add: normalize_inputs_def)
  have ne: "\<not> existing (dmf w0) (step_name_of m0) I" for I
    by (simp add: existing_def find_dmf_def)
  from run_twice [OF res, where m = m0 and a = "()" and w = w0] ne show ?thesis
    by (auto simp: step_name_of_def normalize_inputs_def)
qed

text \<open>
  The claim as it was stated, that the two calls execute the step function exactly once,
  fails on a store that already records the step with the same inputs: both calls return at
  the check, and the step function is not called.
\<close>

theorem run_twice_counterexample:
  "run m0 (Many [d0]) False () w_done = (Inr None, w_done)
   \<and> calls (snd (run m0 (Many [d0]) False () (snd (run m0 (Many [d0]) False () w_done)))) = []"
proof -
  have I: "input_ids_of (normalize_inputs (Many [d0])) = Inr (Some {Some 7})"
    by (simp add: input_ids_of_def normalize_inputs_def resource_id_def)
  have ex: "existing (dmf w_done) (step_name_of m0) (Some {Some 7})"
    by (simp add: existing_def find_dmf_def step_name_of_def same_inputs_def
        proc_step_input_ids_def find_related_def)
  have "run m0 (Many [d0]) False () w_done = (Inr None, w_done)"
    using I ex by (rule run_existing)
  then show ?thesis by simp
qed

text \<open>
  Claim C2, amended. \<^verbatim>\<open>run\<close> has no return statement with a value: whenever it returns,
  with the step executed or skipped, it returns \<^verbatim>\<open>None\<close>, and so does \<^verbatim>\<open>run_script\<close>,
  which returns what \<^verbatim>\<open>run\<close> returns. Every other result of the two is an exception.
\<close>

theorem run_returns_None:
  "(fst (run m i sc a w) = Inr None \<or> (\<exists>err. fst (run m i sc a w) = Inl err))
   \<and> (fst (run_script e m f a w) = Inr None \<or> (\<exists>err. fst (run_script e m f a w) = Inl err))"
proof -
  have "fst (run m i sc a w) = Inr None \<or> (\<exists>err. fst (run m i sc a w) = Inl err)"
    using run_result_None [of m i sc a w] by (cases "fst (run m i sc a w)") auto
  moreover have "fst (run_script e m f a w) = Inr None \<or> (\<exists>err. fst (run_script e m f a w) = Inl err)"
    using run_script_result_None [of e m f a w] by (cases "fst (run_script e m f a w)") auto
  ultimately show ?thesis by blast
qed

theorem run_returns_None_witness:
  "fst (run m0 NoInputs False () w0) = Inr None
   \<and> fst (run_script e0 m0 ''run.py'' () w0) = Inr None"
proof -
  have "find_dmf (dmf w0) ''script:run.py'' = []"
    by (simp add: find_dmf_def)
  then have "\<exists>w'. run_script e0 m0 ''run.py'' () w0 = (Inr None, w')"
    using run_script_none_found [OF refl, where e = e0 and w = w0 and filename = "''run.py''"
        and runner = m0 and c = "()"]
    unfolding script_name0 by blast
  then show ?thesis
    using run_returns_None [where m = m0 and i = NoInputs and sc = False and a = "()" and w = w0
        and e = e0 and f = "''run.py''"] run_m0
    by auto
qed

text \<open>
  The claim as it was stated, that a call of \<^verbatim>\<open>run\<close> which executes the step returns the
  outputs of the step function, fails for the step \<^verbatim>\<open>mod.step\<close> on the empty store: the step
  is called and returns one output, and \<^verbatim>\<open>run\<close> returns \<^verbatim>\<open>None\<close>.
\<close>

theorem run_outputs_counterexample:
  "fst (run m0 NoInputs False () w0) \<noteq> Inr (call m0 (normalize_inputs NoInputs) ())
   \<and> calls (snd (run m0 NoInputs False () w0)) = [(''mod.step'', None)]
   \<and> call m0 (normalize_inputs NoInputs) () = Some [(''out'', ''dir'', [''f''])]"
  using run_m0 by auto

text \<open>
  Claim C9. For every step and every store, \<^verbatim>\<open>run\<close> with \<^verbatim>\<open>inputs=None\<close> and \<^verbatim>\<open>run\<close>
  with an empty list of inputs skip the step in the same stores: exactly those where some
  resource named as the step has no outgoing \<^verbatim>\<open>uses\<close> relation. A call that skips the step
  leaves the workflow as it is, and a call that executes it does not. The identifier sets of
  the two calls differ (\<^verbatim>\<open>None\<close> and the empty set), and the check treats them alike.
\<close>

theorem none_and_empty_inputs_agree:
  "(snd (run m NoInputs False a w) = w)
     = (\<exists>ps\<in>set (find_dmf (dmf w) (step_name_of m)).
          filter (\<lambda>rel. fst rel = rid ps \<and> fst (snd rel) = uses) (relations (dmf w)) = [])
   \<and> (snd (run m (Many []) False a w) = w)
     = (\<exists>ps\<in>set (find_dmf (dmf w) (step_name_of m)).
          filter (\<lambda>rel. fst rel = rid ps \<and> fst (snd rel) = uses) (relations (dmf w)) = [])
   \<and> input_ids_of (normalize_inputs NoInputs) = Inr None
   \<and> input_ids_of (normalize_inputs (Many [])) = Inr (Some {})
   \<and> existing (dmf w) (step_name_of m) None = existing (dmf w) (step_name_of m) (Some {})"
proof -
  have n: "input_ids_of (normalize_inputs NoInputs) = Inr None"
    by (simp add: input_ids_of_def normalize_inputs_def)
  have e: "input_ids_of (normalize_inputs (Many [])) = Inr (Some {})"
    by (simp add: input_ids_of_def normalize_inputs_def)
  have "(snd (run m NoInputs False a w) = w) = existing (dmf w) (step_name_of m) None"
    by (rule run_skipped_iff [OF n]) (simp add: normalize_inputs_def)
  moreover have "(snd (run m (Many []) False a w) = w) = existing (dmf w) (step_name_of m) (Some {})"
    by (rule run_skipped_iff [OF e]) (simp add: normalize_inputs_def)
  ultimately show ?thesis
    using n e by (simp add: existing_empty existing_None)
qed

theorem none_and_empty_inputs_agree_witness:
  "snd (run m0 NoInputs False () w0) \<noteq> w0
   \<and> snd (run m0 (Many []) False () w0) \<noteq> w0
   \<and> snd (run m0 NoInputs False () (w0\<lparr>dmf := (dmf w0)\<lparr>resources := [step0]\<rparr>\<rparr>))
       = w0\<lparr>dmf := (dmf w0)\<lparr>resources := [step0]\<rparr>\<rparr>
   \<and> snd (run m0 (Many []) False () (w0\<lparr>dmf := (dmf w0)\<lparr>resources := [step0]\<rparr>\<rparr>))
       = w0\<lparr>dmf := (dmf w0)\<lparr>resources := [step0]\<rparr>\<rparr>"
  using none_and_empty_inputs_agree [where m = m0 and a = "()" and w = w0]
    none_and_empty_inputs_agree [where m = m0 and a = "()"
      and w = "w0\<lparr>dmf := (dmf w0)\<lparr>resources := [step0]\<rparr>\<rparr>"]
  by (simp add: find_dmf_def step_name_of_def)

text \<open>
  Claim C6. \<^verbatim>\<open>run_script\<close> builds the script dataset \<open>ds\<close> for the file under the
  download directory and asks the store for the resources named as \<open>ds\<close>.
  No match: a new resource named as \<open>ds\<close> is added to the store and attached to \<open>ds\<close>, and the
  step is called, whatever steps the store records (\<^verbatim>\<open>skip_check\<close> is true).
  One match \<open>r\<close>: \<open>r\<close> is attached to \<open>ds\<close> and the call is \<^verbatim>\<open>run\<close> with \<^verbatim>\<open>skip_check\<close>
  false, so the step is skipped, with the workflow unchanged, when the store records a step
  of that name that uses exactly \<open>r\<close>, and is called once otherwise.
  More than one match: the call raises and leaves the workflow as it is, so the step is not
  called. The exception of the source is \<^verbatim>\<open>ValueError\<close> with the message below; the
  specification calls it AmbiguousResourceError.
\<close>

theorem run_script_branches:
  "(let ds = script_fn e (joinpath (download_path w) (parse_path filename));
        found = find_dmf (dmf w) (name ds)
    in (found = [] \<longrightarrow>
          (\<exists>r w'. rid r = new_id (dmf w) \<and> rname r = name ds
             \<and> map fst (datafiles r) = [path_name (joinpath (download_path w) (parse_path filename))]
             \<and> run_script e runner filename c w = (Inr None, w')
             \<and> r \<in> set (find_dmf (dmf w') (name ds))
             \<and> calls w' = calls w
                  @ [(step_name_of runner, Some [snd (resource_setter (ResV r) ds)])]))
     \<and> (\<forall>r. found = [r] \<longrightarrow>
          run_script e runner filename c w
            = run runner (Many [snd (resource_setter (ResV r) ds)]) False c w
          \<and> (existing (dmf w) (step_name_of runner) (Some {Some (rid r)})
               \<longrightarrow> run_script e runner filename c w = (Inr None, w))
          \<and> (\<not> existing (dmf w) (step_name_of runner) (Some {Some (rid r)})
               \<longrightarrow> (\<exists>w'. run_script e runner filename c w = (Inr None, w')
                      \<and> calls w' = calls w
                           @ [(step_name_of runner, Some [snd (resource_setter (ResV r) ds)])])))
     \<and> (1 < length found \<longrightarrow>
          run_script e runner filename c w
            = (Inl (ValueError (''Got '' @ str_nat (length found)
                   @ '' resources for script configuration, expected at most one: ''
                   @ path_str (joinpath (download_path w) (parse_path filename)))), w)))"
  unfolding Let_def
  using run_script_none_found [OF refl, where e = e and w = w and filename = filename
      and runner = runner and c = c]
    run_script_one_found [OF refl, where e = e and w = w and filename = filename
      and runner = runner and c = c]
    run_script_many_found [OF refl, where e = e and w = w and filename = filename
      and runner = runner and c = c]
  by blast

theorem run_script_branches_witness:
  "fst (run_script e0 m0 ''run.py'' () w0) = Inr None
   \<and> length (calls (snd (run_script e0 m0 ''run.py'' () w0))) = 1
   \<and> run_script e0 m0 ''run.py'' () w_ran = (Inr None, w_ran)
   \<and> run_script e0 m0 ''run.py'' () w_dup
       = (Inl (ValueError
            ''Got 2 resources for script configuration, expected at most one: /ws/downloads/run.py''),
          w_dup)"
proof -
  have a: "find_dmf (dmf w0) ''script:run.py'' = []"
    by (simp add: find_dmf_def)
  have b: "find_dmf (dmf w_ran) ''script:run.py'' = [script0]"
    by (simp add: find_dmf_def)
  have c: "find_dmf (dmf w_dup) ''script:run.py'' = [script0, script0\<lparr>rid := 5\<rparr>]"
    by (simp add: find_dmf_def)
  have ex: "existing (dmf w_ran) (step_name_of m0) (Some {Some (rid script0)})"
    by (simp add: existing_def find_dmf_def step_name_of_def same_inputs_def
        proc_step_input_ids_def find_related_def)
  have p: "path_str (joinpath (download_path w_dup) (parse_path ''run.py'')) = ''/ws/downloads/run.py''"
    by (simp add: download_path_def joinpath_def parse_path_def path_str_def)
  have n: "char_of (50 :: nat) = CHR ''2''"
    by code_simp
  from run_script_branches [where e = e0 and runner = m0 and filename = "''run.py''" and c = "()" and w = w0]
  have "fst (run_script e0 m0 ''run.py'' () w0) = Inr None
        \<and> length (calls (snd (run_script e0 m0 ''run.py'' () w0))) = 1"
    unfolding Let_def script_name0 a by auto
  moreover
  from run_script_branches [where e = e0 and runner = m0 and filename = "''run.py''" and c = "()" and w = w_ran]
  have "run_script e0 m0 ''run.py'' () w_ran = (Inr None, w_ran)"
    unfolding Let_def script_name0 b using ex by blast
  moreover
  from run_script_branches [where e = e0 and runner = m0 and filename = "''run.py''" and c = "()" and w = w_dup]
  have "run_script e0 m0 ''run.py'' () w_dup
       = (Inl (ValueError
            ''Got 2 resources for script configuration, expected at most one: /ws/downloads/run.py''),
          w_dup)"
    unfolding Let_def script_name0 c p by (simp add: n)
  ultimately show ?thesis by blast
qed

section \<open>Properties of OutputCollector\<close>

lemma collector_methods:
  assumes "OutputCollector re_compile pd stderr_arg stdout_arg = Inr c"
  shows "map_of (methods c) ''err'' = Some (method_for ''err'' stderr_arg)"
    and "map_of (methods c) ''out'' = Some (method_for ''out'' stdout_arg)"
  using assms
  by (auto simp: OutputCollector_def split: sum.splits)

lemma collector_no_delim:
  "OutputCollector re_compile DelimNone stderr_arg stdout_arg
     = Inr \<lparr>delim = None,
            methods = [(''err'', method_for ''err'' stderr_arg), (''out'', method_for ''out'' stdout_arg)]\<rparr>"
  by (simp add: OutputCollector_def)

lemma redirect_all_lines:
  assumes d: "delim c = Some search"
    and dec: "\<forall>line\<in>set stream. decode line \<noteq> None"
  shows "redirect decode c stream dest (ProgressTo p)
     = (Inr (),
        concat (map (\<lambda>line. if search (the (decode line))
                             then [Write dest (the (decode line)), Write p ''.'', Flush p]
                             else [Write dest (the (decode line))]) stream) @ [Close],
        [])"
  using dec
proof (induction stream)
  case Nil
  show ?case by simp
next
  case (Cons line stream)
  then obtain s where s: "decode line = Some s" by auto
  from Cons have "redirect decode c stream dest (ProgressTo p)
     = (Inr (),
        concat (map (\<lambda>line. if search (the (decode line))
                             then [Write dest (the (decode line)), Write p ''.'', Flush p]
                             else [Write dest (the (decode line))]) stream) @ [Close],
        [])"
    by simp
  then show ?case
    using s d by (simp add: after_def)
qed

lemma count_markers:
  assumes "dest \<noteq> p"
  shows "length (filter (\<lambda>a. a = Write p ''.'')
           (concat (map (\<lambda>line. if search (the (decode line))
                             then [Write dest (the (decode line)), Write p ''.'', Flush p]
                             else [Write dest (the (decode line))]) stream)))
         = length (filter (\<lambda>line. search (the (decode line))) stream)"
  using assms by (induction stream) auto

text \<open>
  Claim C7. The claim is that \<^verbatim>\<open>collect\<close> returns only after both streams are read to
  their end and closed, with no line lost. For the collector built with the default arguments
  (no delimiter, both streams echoed) each stream thread raises \<^verbatim>\<open>AttributeError\<close> on
  \<^verbatim>\<open>self._delim\<close> after it has written the first line: the second line is never read and
  the stream is not closed. The thread ends there, and \<^verbatim>\<open>collect\<close> returns when the process
  has exited.
\<close>

theorem default_collector_stops_reading:
  "OutputCollector re_compile DelimNone ArgTrue ArgTrue
     = Inr \<lparr>delim = None,
            methods = [(''err'', Redirect sys_stderr ProgressFalse),
                       (''out'', Redirect sys_stdout ProgressFalse)]\<rparr>
   \<and> io_thread Some
        \<lparr>delim = None,
         methods = [(''err'', Redirect sys_stderr ProgressFalse),
                    (''out'', Redirect sys_stdout ProgressFalse)]\<rparr>
        ''out'' [''a'', ''b'']
       = Inr (Inl (AttributeError ''_delim''), [Write sys_stdout ''a''], [''b''])
   \<and> io_thread Some
        \<lparr>delim = None,
         methods = [(''err'', Redirect sys_stderr ProgressFalse),
                    (''out'', Redirect sys_stdout ProgressFalse)]\<rparr>
        ''err'' [''x'', ''y'']
       = Inr (Inl (AttributeError ''_delim''), [Write sys_stderr ''x''], [''y''])"
  by (simp add: OutputCollector_def io_thread_def method_for_def)

text \<open>
  Claim C8, amended. For a collector with a delimiter and a stream whose destination is a
  file path, when every line of the stream decodes as UTF-8, the thread of that stream reads
  the stream to its end and closes it; for each line, in order, it writes the text to the
  file and, when the text matches the delimiter, writes one \<^verbatim>\<open>.\<close> to the standard output
  of the program and flushes it at once. So the number of markers written is the number of
  matching lines of the stream.
\<close>

theorem progress_markers:
  assumes c: "OutputCollector re_compile pd stderr_arg stdout_arg = Inr c"
    and d: "delim c = Some search"
    and s: "(nm, ArgPath f) = (''err'', stderr_arg) \<or> (nm, ArgPath f) = (''out'', stdout_arg)"
    and dec: "\<forall>line\<in>set stream. decode line \<noteq> None"
  shows "\<exists>acts. io_thread decode c nm stream = Inr (Inr (), acts @ [Close], [])
     \<and> acts = concat (map (\<lambda>line. if search (the (decode line))
                             then [Write (open_file f) (the (decode line)),
                                   Write sys_stdout ''.'', Flush sys_stdout]
                             else [Write (open_file f) (the (decode line))]) stream)
     \<and> length (filter (\<lambda>a. a = Write sys_stdout ''.'') acts)
         = length (filter (\<lambda>line. search (the (decode line))) stream)"
proof -
  have m: "map_of (methods c) nm = Some (Redirect (open_file f) (ProgressTo sys_stdout))"
    using s collector_methods [OF c] by (auto simp: method_for_def)
  have "io_thread decode c nm stream
          = Inr (redirect decode c stream (open_file f) (ProgressTo sys_stdout))"
    by (simp add: io_thread_def m)
  then show ?thesis
    using redirect_all_lines [OF d dec, of "open_file f" sys_stdout]
      count_markers [of "open_file f" sys_stdout search decode stream]
    by simp
qed

theorem progress_markers_witness:
  "io_thread dec0
     \<lparr>delim = Some (\<lambda>t. take 5 t = ''phase''),
      methods = [(''err'', Redirect sys_stderr ProgressFalse),
                 (''out'', Redirect (open_file ''log'') (ProgressTo sys_stdout))]\<rparr>
     ''out'' [''phase 1'', ''work'']
   = Inr (Inr (),
          [Write (open_file ''log'') ''phase 1'', Write sys_stdout ''.'', Flush sys_stdout,
           Write (open_file ''log'') ''work'', Close],
          [])"
proof -
  let ?c = "\<lparr>delim = Some (\<lambda>t. take 5 t = ''phase''),
             methods = [(''err'', Redirect sys_stderr ProgressFalse),
                        (''out'', Redirect (open_file ''log'') (ProgressTo sys_stdout))]\<rparr>"
  have c: "OutputCollector rc0 (DelimPattern (\<lambda>t. take 5 t = ''phase'')) ArgTrue (ArgPath ''log'')
             = Inr ?c"
    by (simp add: OutputCollector_def method_for_def)
  have d: "delim ?c = Some (\<lambda>t. take 5 t = ''phase'')"
    by simp
  have s: "(''out'', ArgPath ''log'') = (''err'', ArgTrue)
           \<or> (''out'', ArgPath ''log'') = (''out'', ArgPath ''log'')"
    by simp
  have dec: "\<forall>line\<in>set [''phase 1'', ''work'']. dec0 line \<noteq> None"
    by simp
  from progress_markers [OF c d s dec] show ?thesis
    by simp
qed

text \<open>
  The claim as it was stated fails for the other two destinations and for a line that does
  not decode. With the destination \<^verbatim>\<open>True\<close> the progress argument is \<^verbatim>\<open>False\<close>: on a
  matching line no marker is written (the thread raises on \<^verbatim>\<open>progress.write\<close>). With the
  destination \<^verbatim>\<open>False\<close> the lines are discarded and never matched. With a file as
  destination, a line that is not UTF-8 ends the thread before the matching line after it.
\<close>

theorem progress_markers_counterexample:
  "OutputCollector rc0 (DelimPattern (\<lambda>t. take 5 t = ''phase'')) ArgFalse ArgTrue
     = Inr \<lparr>delim = Some (\<lambda>t. take 5 t = ''phase''),
            methods = [(''err'', Vanish), (''out'', Redirect sys_stdout ProgressFalse)]\<rparr>
   \<and> io_thread dec0
        \<lparr>delim = Some (\<lambda>t. take 5 t = ''phase''),
         methods = [(''err'', Vanish), (''out'', Redirect sys_stdout ProgressFalse)]\<rparr>
        ''out'' [''phase 1'']
       = Inr (Inl (AttributeError ''write''), [Write sys_stdout ''phase 1''], [])
   \<and> io_thread dec0
        \<lparr>delim = Some (\<lambda>t. take 5 t = ''phase''),
         methods = [(''err'', Vanish), (''out'', Redirect sys_stdout ProgressFalse)]\<rparr>
        ''err'' [''phase 1'']
       = Inr (Inr (), [Close], [])
   \<and> OutputCollector rc0 (DelimPattern (\<lambda>t. take 5 t = ''phase'')) ArgTrue (ArgPath ''log'')
     = Inr \<lparr>delim = Some (\<lambda>t. take 5 t = ''phase''),
            methods = [(''err'', Redirect sys_stderr ProgressFalse),
                       (''out'', Redirect (open_file ''log'') (ProgressTo sys_stdout))]\<rparr>
   \<and> io_thread dec0
        \<lparr>delim = Some (\<lambda>t. take 5 t = ''phase''),
         methods = [(''err'', Redirect sys_stderr ProgressFalse),
                    (''out'', Redirect (open_file ''log'') (ProgressTo sys_stdout))]\<rparr>
        ''out'' [[CHR 0xFF], ''phase 1'']
       = Inr (Inl UnicodeDecodeError, [], [''phase 1''])"
  by (simp add: OutputCollector_def io_thread_def method_for_def vanish_def)

text \<open>
  Claim C10, amended. For a collector built without a delimiter and a stream whose destination
  is \<^verbatim>\<open>True\<close> or a file path, the thread of that stream fails on the first line it reads
  and leaves the other lines unread: with \<^verbatim>\<open>AttributeError\<close> on \<^verbatim>\<open>self._delim\<close>, after
  writing the text to the destination, when the line decodes as UTF-8, and with
  \<^verbatim>\<open>UnicodeDecodeError\<close>, before any write, when it does not.
\<close>

theorem redirect_without_delimiter:
  assumes s: "(nm, arg) = (''err'', stderr_arg) \<or> (nm, arg) = (''out'', stdout_arg)"
    and a: "arg \<noteq> ArgFalse"
  shows "\<exists>c dest prog. OutputCollector re_compile DelimNone stderr_arg stdout_arg = Inr c
     \<and> delim c = None
     \<and> map_of (methods c) nm = Some (Redirect dest prog)
     \<and> Redirect dest prog = method_for nm arg
     \<and> io_thread decode c nm (line # stream)
         = Inr (case decode line of
                  None \<Rightarrow> (Inl UnicodeDecodeError, [], stream)
                | Some text \<Rightarrow> (Inl (AttributeError ''_delim''), [Write dest text], stream))"
proof -
  let ?c = "\<lparr>delim = None,
             methods = [(''err'', method_for ''err'' stderr_arg), (''out'', method_for ''out'' stdout_arg)]\<rparr>"
  obtain dest prog where r: "method_for nm arg = Redirect dest prog"
    using a by (cases arg) (auto simp: method_for_def)
  have m: "map_of (methods ?c) nm = Some (Redirect dest prog)"
    using s r by auto
  have "io_thread decode ?c nm (line # stream)
         = Inr (case decode line of
                  None \<Rightarrow> (Inl UnicodeDecodeError, [], stream)
                | Some text \<Rightarrow> (Inl (AttributeError ''_delim''), [Write dest text], stream))"
    unfolding io_thread_def m by (simp split: option.splits)
  then show ?thesis
    using collector_no_delim [of re_compile stderr_arg stdout_arg] m r by force
qed

theorem redirect_without_delimiter_witness:
  "io_thread dec0
     \<lparr>delim = None,
      methods = [(''err'', Redirect sys_stderr ProgressFalse),
                 (''out'', Redirect (open_file ''log'') (ProgressTo sys_stdout))]\<rparr>
     ''out'' [''hello'', ''world'']
     = Inr (Inl (AttributeError ''_delim''), [Write (open_file ''log'') ''hello''], [''world''])
   \<and> io_thread dec0
     \<lparr>delim = None,
      methods = [(''err'', Redirect sys_stderr ProgressFalse),
                 (''out'', Redirect (open_file ''log'') (ProgressTo sys_stdout))]\<rparr>
     ''err'' [''oops'']
     = Inr (Inl (AttributeError ''_delim''), [Write sys_stderr ''oops''], [])"
proof -
  have o: "(''out'', ArgPath ''log'') = (''err'', ArgTrue) \<or> (''out'', ArgPath ''log'') = (''out'', ArgPath ''log'')"
    and e: "(''err'', ArgTrue) = (''err'', ArgTrue) \<or> (''err'', ArgTrue) = (''out'', ArgPath ''log'')"
    by simp_all
  from redirect_without_delimiter [OF o, where re_compile = rc0 and decode = dec0
      and line = "''hello''" and stream = "[''world'']"]
    redirect_without_delimiter [OF e, where re_compile = rc0 and decode = dec0
      and line = "''oops''" and stream = "[]"]
  show ?thesis
    by (auto simp: method_for_def OutputCollector_def)
qed

text \<open>
  The claim as it was stated, that the failure on the first line is an attribute error, fails
  for a first line that is not UTF-8: \<^verbatim>\<open>line.decode\<close> raises before \<^verbatim>\<open>self._delim\<close> is
  read.
\<close>

theorem redirect_without_delimiter_counterexample:
  "OutputCollector rc0 DelimNone ArgTrue ArgTrue
     = Inr \<lparr>delim = None,
            methods = [(''err'', Redirect sys_stderr ProgressFalse),
                       (''out'', Redirect sys_stdout ProgressFalse)]\<rparr>
   \<and> io_thread dec0
        \<lparr>delim = None,
         methods = [(''err'', Redirect sys_stderr ProgressFalse),
                    (''out'', Redirect sys_stdout ProgressFalse)]\<rparr>
        ''out'' [[CHR 0xFF], ''hello'']
       = Inr (Inl UnicodeDecodeError, [], [''hello''])"
  by (simp add: OutputCollector_def io_thread_def method_for_def)

end
